theory Spec2Isabelle
  imports Main
begin

section \<open>JavaScript values used by the Hedera helper module\<close>

text \<open>
  The module under verification is the Hedera helper library of the message box
  (\<^verbatim>\<open>initializeClient\<close>, \<^verbatim>\<open>submitMessageToHCS\<close>, \<^verbatim>\<open>queryTopicMessages\<close>,
  \<^verbatim>\<open>getLatestSequenceNumber\<close>, \<^verbatim>\<open>getNewMessages\<close>, \<^verbatim>\<open>getMessagesInRange\<close>).

  Conventions of the embedding:
  \<^item> a JavaScript number that holds a sequence number, a limit or a cursor is an \<open>int\<close>
    (the values are integers within the safe range of a double);
  \<^item> a string is a \<open>string\<close> (a list of bytes);
  \<^item> an optional property or an unset environment variable is \<open>None\<close>;
  \<^item> a thrown \<^verbatim>\<open>Error\<close> (or a rejected promise) is \<open>Inl msg\<close>, \<open>msg\<close> being the
    error's \<^verbatim>\<open>message\<close>; a returned value is \<open>Inr v\<close>;
  \<^item> \<^verbatim>\<open>await\<close> is sequencing: one call completes before the next starts;
  \<^item> \<^verbatim>\<open>console.debug\<close> output is not modelled.
\<close>

subsection \<open>Numbers to text and back\<close>

text \<open>The decimal text that a template literal or \<^verbatim>\<open>URLSearchParams.append\<close> produces
  for an integer.\<close>

definition digit_char :: "nat \<Rightarrow> char" where
  "digit_char d = ''0123456789'' ! d"

fun show_nat :: "nat \<Rightarrow> string" where
  "show_nat n =
     (if n < 10 then [digit_char n] else show_nat (n div 10) @ [digit_char (n mod 10)])"

declare show_nat.simps [simp del]

definition show_int :: "int \<Rightarrow> string" where
  "show_int i = (if i < 0 then CHR ''-'' # show_nat (nat (- i)) else show_nat (nat i))"

text \<open>Reading decimal text, as the query service does with the values of its parameters.\<close>

definition digit_val :: "char \<Rightarrow> nat option" where
  "digit_val c =
     (let k = (of_char c :: nat) in if 48 \<le> k \<and> k \<le> 57 then Some (k - 48) else None)"

fun parse_digits :: "nat \<Rightarrow> string \<Rightarrow> nat option" where
  "parse_digits acc [] = Some acc"
| "parse_digits acc (c # cs) =
     (case digit_val c of None \<Rightarrow> None | Some d \<Rightarrow> parse_digits (10 * acc + d) cs)"

definition parse_nat :: "string \<Rightarrow> nat option" where
  "parse_nat s = (if s = [] then None else parse_digits 0 s)"

definition parse_int :: "string \<Rightarrow> int option" where
  "parse_int s =
     (case s of
        [] \<Rightarrow> None
      | c # r \<Rightarrow> if c = CHR ''-'' then map_option (\<lambda>n. - int n) (parse_nat r)
                 else map_option int (parse_nat s))"

subsection \<open>Truthiness and case folding\<close>

text \<open>\<^verbatim>\<open>if (x)\<close> on a number is false for \<^verbatim>\<open>undefined\<close> and for 0; on a string it is
  false for \<^verbatim>\<open>undefined\<close> and for the empty string.\<close>

definition truthy_num :: "int option \<Rightarrow> bool" where
  "truthy_num x = (case x of None \<Rightarrow> False | Some n \<Rightarrow> n \<noteq> 0)"

definition truthy_str :: "string option \<Rightarrow> bool" where
  "truthy_str x = (case x of None \<Rightarrow> False | Some s \<Rightarrow> s \<noteq> [])"

text \<open>\<^verbatim>\<open>String.prototype.toLowerCase\<close> on the letters A to Z; every other byte is kept.
  (No string with a character outside ASCII lower-cases to \<^verbatim>\<open>mainnet\<close>, so the
  comparison with that word does not depend on how other characters are folded.)\<close>

definition lower_char :: "char \<Rightarrow> char" where
  "lower_char c =
     (case map_of (zip ''ABCDEFGHIJKLMNOPQRSTUVWXYZ'' ''abcdefghijklmnopqrstuvwxyz'') c of
        Some l \<Rightarrow> l
      | None \<Rightarrow> c)"

definition toLowerCase :: "string \<Rightarrow> string" where
  "toLowerCase s = map lower_char s"

section \<open>Data model\<close>

text \<open>\<^verbatim>\<open>process.env\<close>.\<close>

type_synonym env = "string \<rightharpoonup> string"

text \<open>The SDK client: the network it targets and the operator set on it. The account id and
  the private key are the SDK's own types; \<^verbatim>\<open>AccountId.fromString\<close> and
  \<^verbatim>\<open>PrivateKey.fromStringDer\<close> are taken as given and may throw.\<close>

datatype network = Mainnet | Testnet

record ('a, 'k) client =
  client_network :: network
  client_operator :: "('a \<times> 'k) option"

record ('a, 'k) sdk =
  AccountId_fromString :: "string \<Rightarrow> string + 'a"
  PrivateKey_fromStringDer :: "string \<Rightarrow> string + 'k"

definition forMainnet :: "('a, 'k) client" where
  "forMainnet = \<lparr>client_network = Mainnet, client_operator = None\<rparr>"

definition forTestnet :: "('a, 'k) client" where
  "forTestnet = \<lparr>client_network = Testnet, client_operator = None\<rparr>"

definition setOperator :: "('a, 'k) client \<Rightarrow> 'a \<Rightarrow> 'k \<Rightarrow> ('a, 'k) client" where
  "setOperator c a k = c\<lparr>client_operator := Some (a, k)\<rparr>"

text \<open>A transaction receipt, as far as the module reads it: \<^verbatim>\<open>status.toString()\<close>, and
  the sequence number the topic assigned to a submitted message.\<close>

record receipt =
  receipt_status :: string
  topicSequenceNumber :: int

text \<open>The object \<^verbatim>\<open>submitMessageToHCS\<close> returns:
  \<^verbatim>\<open>{ success, topicId?, error? }\<close>.\<close>

record submit_result =
  success :: bool
  topicId :: "string option"
  error :: "string option"

text \<open>One entry of a topic, as the mirror node reports it.\<close>

record topic_message =
  sequence_number :: int
  consensus_timestamp :: string
  message :: string

text \<open>The parsed body of a mirror node reply: an object whose \<^verbatim>\<open>messages\<close> property,
  when present, is an array of entries.\<close>

record response =
  messages :: "topic_message list option"

text \<open>The \<^verbatim>\<open>options\<close> argument of \<^verbatim>\<open>queryTopicMessages\<close>; every property is
  optional.\<close>

record query_options =
  opt_limit :: "int option"
  opt_order :: "string option"
  opt_sequenceNumber :: "int option"
  opt_operator :: "string option"

text \<open>The GET request: the base URL, the topic, and the \<^verbatim>\<open>URLSearchParams\<close> (name and
  value pairs in the order of the \<^verbatim>\<open>append\<close> calls).\<close>

record http_request =
  url_base :: string
  url_topic :: string
  url_params :: "(string \<times> string) list"

text \<open>What \<^verbatim>\<open>https.get\<close> followed by \<^verbatim>\<open>JSON.parse\<close> gives: the request fails, the
  body does not parse, or a parsed body.\<close>

datatype http_reply = Request_failed string | Unparsable string | Parsed response

type_synonym http = "http_request \<Rightarrow> http_reply"

subsection \<open>The text of the URL\<close>








section \<open>The module\<close>

subsection \<open>isTransactionSuccessful\<close>

definition isTransactionSuccessful :: "receipt \<Rightarrow> bool" where
  "isTransactionSuccessful r = (receipt_status r = ''SUCCESS'')"

subsection \<open>initializeClient\<close>

text \<open>The message of the error thrown for missing credentials starts with the three bytes
  of the ballot sign.\<close>

definition missing_credentials :: string where
  "missing_credentials =
     CHR 0xE2 # CHR 0x9C # CHR 0x97 #
     '' Please set HEDERA_ACCOUNT_ID and HEDERA_PRIVATE_KEY environment variables''"

text \<open>\<^verbatim>\<open>process.env.HEDERA_NETWORK || "testnet"\<close>.\<close>

definition network_selector :: "env \<Rightarrow> string" where
  "network_selector env =
     (case env ''HEDERA_NETWORK'' of
        None \<Rightarrow> ''testnet''
      | Some s \<Rightarrow> if s = [] then ''testnet'' else s)"

text \<open>The guard throws first. Then the client is built for the selected network, the two
  credential strings are parsed in argument order, and the operator is set.\<close>

definition initializeClient :: "('a, 'k) sdk \<Rightarrow> env \<Rightarrow> string + ('a, 'k) client" where
  "initializeClient sdk env =
     (let operatorId = env ''HEDERA_ACCOUNT_ID'';
          operatorKey = env ''HEDERA_PRIVATE_KEY'';
          network = network_selector env
      in if \<not> truthy_str operatorId \<or> \<not> truthy_str operatorKey then Inl missing_credentials
         else
           let client = (if toLowerCase network = ''mainnet'' then forMainnet else forTestnet)
           in case AccountId_fromString sdk (case operatorId of Some s \<Rightarrow> s | None \<Rightarrow> []) of
                Inl e \<Rightarrow> Inl e
              | Inr a \<Rightarrow>
                  (case PrivateKey_fromStringDer sdk
                          (case operatorKey of Some s \<Rightarrow> s | None \<Rightarrow> []) of
                     Inl e \<Rightarrow> Inl e
                   | Inr k \<Rightarrow> Inr (setOperator client a k)))"

text \<open>The same function with its calls into the SDK written down in the order they are
  made, each call once per time it is made: the two client constructors, the two parsers with
  their argument, and \<^verbatim>\<open>setOperator\<close>. A call that throws is the last one.\<close>

datatype sdk_call =
  Call_forMainnet
| Call_forTestnet
| Call_AccountId_fromString string
| Call_PrivateKey_fromStringDer string
| Call_setOperator

definition initializeClient_calls ::
  "('a, 'k) sdk \<Rightarrow> env \<Rightarrow> sdk_call list \<times> (string + ('a, 'k) client)"
where
  "initializeClient_calls sdk env =
     (let operatorId = env ''HEDERA_ACCOUNT_ID'';
          operatorKey = env ''HEDERA_PRIVATE_KEY'';
          network = network_selector env
      in if \<not> truthy_str operatorId \<or> \<not> truthy_str operatorKey
         then ([], Inl missing_credentials)
         else
           let mainnet = (toLowerCase network = ''mainnet'');
               built = (if mainnet then Call_forMainnet else Call_forTestnet);
               client = (if mainnet then forMainnet else forTestnet);
               idText = (case operatorId of Some s \<Rightarrow> s | None \<Rightarrow> []);
               keyText = (case operatorKey of Some s \<Rightarrow> s | None \<Rightarrow> [])
           in case AccountId_fromString sdk idText of
                Inl e \<Rightarrow> ([built, Call_AccountId_fromString idText], Inl e)
              | Inr a \<Rightarrow>
                  (case PrivateKey_fromStringDer sdk keyText of
                     Inl e \<Rightarrow>
                       ([built, Call_AccountId_fromString idText,
                         Call_PrivateKey_fromStringDer keyText], Inl e)
                   | Inr k \<Rightarrow>
                       ([built, Call_AccountId_fromString idText,
                         Call_PrivateKey_fromStringDer keyText, Call_setOperator],
                        Inr (setOperator client a k))))"

subsection \<open>getMirrorNodeUrl\<close>

text \<open>The \<^verbatim>\<open>client\<close> argument is represented by what its \<^verbatim>\<open>getMirrorNodeUrl()\<close>
  method returns; \<open>None\<close> is a call without the argument, where reading the method of
  \<^verbatim>\<open>undefined\<close> throws a \<^verbatim>\<open>TypeError\<close>.\<close>

definition undefined_client :: string where
  "undefined_client = ''Cannot read properties of undefined (reading 'getMirrorNodeUrl')''"

definition getMirrorNodeUrl :: "env \<Rightarrow> string option \<Rightarrow> string + string" where
  "getMirrorNodeUrl env client =
     (if truthy_str (env ''MIRROR_NODE_URL'')
      then (case env ''MIRROR_NODE_URL'' of Some u \<Rightarrow> Inr u | None \<Rightarrow> Inr [])
      else (case client of None \<Rightarrow> Inl undefined_client | Some u \<Rightarrow> Inr u))"

subsection \<open>submitMessageToHCS\<close>

text \<open>\<open>execute client topicId message\<close> stands for building the
  \<^verbatim>\<open>TopicMessageSubmitTransaction\<close>, executing it and fetching its receipt; it throws or
  gives the receipt.\<close>

definition submitMessageToHCS ::
  "('c \<Rightarrow> string \<Rightarrow> string \<Rightarrow> string + receipt) \<Rightarrow> 'c \<Rightarrow> string \<Rightarrow> string
     \<Rightarrow> string + submit_result"
where
  "submitMessageToHCS execute client topic msg =
     (case execute client topic msg of
        Inl e \<Rightarrow> Inl e
      | Inr r \<Rightarrow>
          if isTransactionSuccessful r
          then Inr \<lparr>success = True, topicId = Some topic, error = None\<rparr>
          else Inr \<lparr>success = False, topicId = None, error = Some (receipt_status r)\<rparr>)"

subsection \<open>queryTopicMessages\<close>

text \<open>The three guarded \<^verbatim>\<open>params.append\<close> calls.\<close>

definition queryTopicMessages_params :: "query_options \<Rightarrow> (string \<times> string) list" where
  "queryTopicMessages_params options =
     (if truthy_num (opt_limit options)
      then [(''limit'', show_int (case opt_limit options of Some l \<Rightarrow> l | None \<Rightarrow> 0))]
      else [])
     @ (if truthy_str (opt_order options)
        then [(''order'', (case opt_order options of Some s \<Rightarrow> s | None \<Rightarrow> []))]
        else [])
     @ (if truthy_num (opt_sequenceNumber options) \<and> truthy_str (opt_operator options)
        then [(''sequencenumber'',
               (case opt_operator options of Some s \<Rightarrow> s | None \<Rightarrow> []) @ '':''
               @ show_int (case opt_sequenceNumber options of Some n \<Rightarrow> n | None \<Rightarrow> 0))]
        else [])"

text \<open>The request the function builds; \<^verbatim>\<open>getMirrorNodeUrl\<close> is called without a
  client.\<close>

definition queryTopicMessages_request ::
  "env \<Rightarrow> string \<Rightarrow> query_options \<Rightarrow> string + http_request"
where
  "queryTopicMessages_request env topic options =
     (case getMirrorNodeUrl env None of
        Inl e \<Rightarrow> Inl e
      | Inr mirrorNodeUrl \<Rightarrow>
          Inr \<lparr>url_base = mirrorNodeUrl, url_topic = topic,
               url_params = queryTopicMessages_params options\<rparr>)"

text \<open>The promise around \<^verbatim>\<open>https.get\<close>: resolved with the parsed body, rejected with
  one of two errors.\<close>

definition settle :: "http_reply \<Rightarrow> string + response" where
  "settle reply =
     (case reply of
        Request_failed e \<Rightarrow> Inl (''Mirror Node request failed: '' @ e)
      | Unparsable e \<Rightarrow> Inl (''Failed to parse Mirror Node response: '' @ e)
      | Parsed r \<Rightarrow> Inr r)"

definition queryTopicMessages :: "env \<Rightarrow> http \<Rightarrow> string \<Rightarrow> query_options \<Rightarrow> string + response"
where
  "queryTopicMessages env get topic options =
     (case queryTopicMessages_request env topic options of
        Inl e \<Rightarrow> Inl e
      | Inr req \<Rightarrow> settle (get req))"

subsection \<open>getLatestSequenceNumber\<close>

text \<open>\<^verbatim>\<open>response.messages?.[0]?.sequence_number || null\<close>: \<open>None\<close> is \<^verbatim>\<open>null\<close>.\<close>

definition latest_options :: query_options where
  "latest_options =
     \<lparr>opt_limit = Some 1, opt_order = Some ''desc'',
      opt_sequenceNumber = None, opt_operator = None\<rparr>"

definition getLatestSequenceNumber :: "env \<Rightarrow> http \<Rightarrow> string \<Rightarrow> string + int option" where
  "getLatestSequenceNumber env get topic =
     (case queryTopicMessages env get topic latest_options of
        Inl e \<Rightarrow> Inl (''Failed to get latest sequence number: '' @ e)
      | Inr r \<Rightarrow>
          (case messages r of
             None \<Rightarrow> Inr None
           | Some [] \<Rightarrow> Inr None
           | Some (m # _) \<Rightarrow>
               Inr (if sequence_number m \<noteq> 0 then Some (sequence_number m) else None)))"

subsection \<open>getNewMessages\<close>

text \<open>The options of the query for the entries after \<open>lastSequence\<close>; \<^verbatim>\<open>getMessagesInRange\<close>
  passes the same ones.\<close>

definition new_options :: "int \<Rightarrow> query_options" where
  "new_options lastSequence =
     \<lparr>opt_limit = Some 100, opt_order = Some ''asc'',
      opt_sequenceNumber = Some lastSequence, opt_operator = Some ''gt''\<rparr>"

definition getNewMessages :: "env \<Rightarrow> http \<Rightarrow> string \<Rightarrow> int \<Rightarrow> string + topic_message list"
where
  "getNewMessages env get topic afterSequenceNumber =
     (case queryTopicMessages env get topic (new_options afterSequenceNumber) of
        Inl e \<Rightarrow> Inl (''Failed to get new messages: '' @ e)
      | Inr r \<Rightarrow> Inr (case messages r of None \<Rightarrow> [] | Some ms \<Rightarrow> ms))"

subsection \<open>getMessagesInRange\<close>

text \<open>\<^verbatim>\<open>endSequence && msg.sequence_number > endSequence\<close>; the end bound is optional.\<close>

definition past_end :: "int option \<Rightarrow> topic_message \<Rightarrow> bool" where
  "past_end endSequence msg =
     (case endSequence of
        None \<Rightarrow> False
      | Some e \<Rightarrow> e \<noteq> 0 \<and> sequence_number msg > e)"

text \<open>The \<^verbatim>\<open>for\<close> loop over one page, on the state
  \<open>(allMessages, lastSequence, hasMore)\<close>; \<^verbatim>\<open>break\<close> leaves the rest of the page
  unread.\<close>

fun scan_page ::
  "int \<Rightarrow> int option \<Rightarrow> topic_message list \<Rightarrow> topic_message list \<times> int \<times> bool
     \<Rightarrow> topic_message list \<times> int \<times> bool"
where
  "scan_page startSequence endSequence [] st = st"
| "scan_page startSequence endSequence (msg # rest) (allMessages, lastSequence, hasMore) =
     (if past_end endSequence msg then (allMessages, lastSequence, False)
      else scan_page startSequence endSequence rest
             (if sequence_number msg \<ge> startSequence then allMessages @ [msg] else allMessages,
              sequence_number msg, hasMore))"

text \<open>The \<^verbatim>\<open>while (hasMore)\<close> loop. The loop may run forever, and then the value is
  \<open>None\<close>.\<close>

partial_function (option) range_loop ::
  "env \<Rightarrow> http \<Rightarrow> string \<Rightarrow> int \<Rightarrow> int option \<Rightarrow> topic_message list \<Rightarrow> int
     \<Rightarrow> (string + topic_message list) option"
where
  "range_loop env get topic startSequence endSequence allMessages lastSequence =
     (case queryTopicMessages env get topic (new_options lastSequence) of
        Inl e \<Rightarrow> Some (Inl (''Failed to get messages in range: '' @ e))
      | Inr r \<Rightarrow>
          (case messages r of
             None \<Rightarrow> Some (Inr allMessages)
           | Some page \<Rightarrow>
               if page = [] then Some (Inr allMessages)
               else
                 (case scan_page startSequence endSequence page
                         (allMessages, lastSequence, True) of
                    (allMessages', lastSequence', hasMore) \<Rightarrow>
                      if hasMore \<and> \<not> length page < 100
                      then range_loop env get topic startSequence endSequence
                             allMessages' lastSequence'
                      else Some (Inr allMessages'))))"

declare range_loop.simps [code]

definition getMessagesInRange ::
  "env \<Rightarrow> http \<Rightarrow> string \<Rightarrow> int \<Rightarrow> int option \<Rightarrow> (string + topic_message list) option"
where
  "getMessagesInRange env get topic startSequence endSequence =
     range_loop env get topic startSequence endSequence [] (startSequence - 1)"

section \<open>The mirror node\<close>

text \<open>
  The read-side query service answering for one topic whose entries are \<open>log\<close>, in the
  order of the log. It reads the three query parameters \<^verbatim>\<open>limit\<close>, \<^verbatim>\<open>order\<close>
  (\<^verbatim>\<open>asc\<close> or \<^verbatim>\<open>desc\<close>) and \<^verbatim>\<open>sequencenumber=<op>:<n>\<close> with \<^verbatim>\<open><op>\<close> one of
  \<^verbatim>\<open>gt\<close>, \<^verbatim>\<open>gte\<close>, \<^verbatim>\<open>lt\<close>, \<^verbatim>\<open>lte\<close>; it filters, orders and then truncates. A
  request without \<^verbatim>\<open>limit\<close> gets 25 entries, one without \<^verbatim>\<open>order\<close> is ascending, and a
  malformed parameter is answered by a body without \<^verbatim>\<open>messages\<close>.
\<close>

definition parse_filter :: "string \<Rightarrow> (int \<Rightarrow> bool) option" where
  "parse_filter v =
     (let op = takeWhile (\<lambda>c. c \<noteq> CHR '':'') v;
          rest = dropWhile (\<lambda>c. c \<noteq> CHR '':'') v
      in case rest of
           [] \<Rightarrow> None
         | _ # num \<Rightarrow>
             (case parse_int num of
                None \<Rightarrow> None
              | Some n \<Rightarrow>
                  if op = ''gt'' then Some (\<lambda>s. s > n)
                  else if op = ''gte'' then Some (\<lambda>s. s \<ge> n)
                  else if op = ''lt'' then Some (\<lambda>s. s < n)
                  else if op = ''lte'' then Some (\<lambda>s. s \<le> n)
                  else None))"

definition mirror_node :: "topic_message list \<Rightarrow> http" where
  "mirror_node log req =
     (let ps = map_of (url_params req);
          lim = (case ps ''limit'' of None \<Rightarrow> Some 25 | Some s \<Rightarrow> parse_nat s);
          desc = (case ps ''order'' of
                    None \<Rightarrow> Some False
                  | Some s \<Rightarrow> if s = ''asc'' then Some False
                              else if s = ''desc'' then Some True else None);
          flt = (case ps ''sequencenumber'' of
                   None \<Rightarrow> Some (\<lambda>_. True)
                 | Some s \<Rightarrow> parse_filter s)
      in case (lim, desc, flt) of
           (Some n, Some d, Some p) \<Rightarrow>
             Parsed \<lparr>messages =
               Some (take n ((if d then rev else id)
                               (filter (\<lambda>m. p (sequence_number m)) log)))\<rparr>
         | _ \<Rightarrow> Parsed \<lparr>messages = None\<rparr>)"

text \<open>A log assigns strictly increasing sequence numbers, starting at 1 or above.\<close>

definition wf_log :: "topic_message list \<Rightarrow> bool" where
  "wf_log log =
     (sorted_wrt (<) (map sequence_number log) \<and> list_all (\<lambda>m. 1 \<le> sequence_number m) log)"

text \<open>The environment in which the mirror node is reachable: its URL is configured.\<close>

definition mirror_configured :: "env \<Rightarrow> bool" where
  "mirror_configured env = truthy_str (env ''MIRROR_NODE_URL'')"

section \<open>The envelope codec\<close>

text \<open>Modelled from the spec: the envelope codec (\<^verbatim>\<open>encrypt\<close> and \<^verbatim>\<open>decrypt\<close>) lives in
  the library file of the message box that is not among the sources. The data model follows
  the spec's sections on KeyPair, PublicKeyRecord and Envelope; byte strings are \<open>string\<close>.\<close>

datatype scheme = RSA | ECIES

text \<open>\<open>RSA_public keyMaterial\<close> and \<open>ECIES_public curve keyMaterial\<close>.\<close>

datatype public_key_record =
  RSA_public string
| ECIES_public string string

text \<open>\<open>RSA_envelope encryptedKey iv encryptedData\<close> and
  \<open>ECIES_envelope ephemeralPublicKey iv encryptedData authTag curve\<close>.\<close>

datatype envelope =
  RSA_envelope string string string
| ECIES_envelope string string string string string

record key_pair =
  kp_scheme :: scheme
  privateKey :: string
  publicKey :: public_key_record

datatype codec_error = SchemeMismatch | AuthenticationFailed

text \<open>The primitives of the platform's crypto library that the codec calls: AES under a
  session key, RSA-OAEP key wrapping, AES-256-GCM with a separate tag, ECDH on secp256k1, the
  public point of a secret, SHA-256. They are parameters of the codec; a decryption that does
  not verify gives \<open>None\<close>.\<close>

record crypto =
  aes_encrypt :: "string \<Rightarrow> string \<Rightarrow> string \<Rightarrow> string"
  aes_decrypt :: "string \<Rightarrow> string \<Rightarrow> string \<Rightarrow> string option"
  rsa_wrap :: "string \<Rightarrow> string \<Rightarrow> string"
  rsa_unwrap :: "string \<Rightarrow> string \<Rightarrow> string option"
  gcm_encrypt :: "string \<Rightarrow> string \<Rightarrow> string \<Rightarrow> string \<times> string"
  gcm_decrypt :: "string \<Rightarrow> string \<Rightarrow> string \<Rightarrow> string \<Rightarrow> string option"
  ecdh :: "string \<Rightarrow> string \<Rightarrow> string"
  ec_public :: "string \<Rightarrow> string"
  sha256 :: "string \<Rightarrow> string"

text \<open>Modelled from the spec: the random choices of one \<^verbatim>\<open>encrypt\<close> call (the AES session
  key, the IV, the ephemeral secret), made explicit as an argument.\<close>

record entropy =
  session_key :: string
  fresh_iv :: string
  ephemeral_secret :: string

definition scheme_of :: "public_key_record \<Rightarrow> scheme" where
  "scheme_of pk = (case pk of RSA_public _ \<Rightarrow> RSA | ECIES_public _ _ \<Rightarrow> ECIES)"

definition envelope_type :: "envelope \<Rightarrow> scheme" where
  "envelope_type env = (case env of RSA_envelope _ _ _ \<Rightarrow> RSA | ECIES_envelope _ _ _ _ _ \<Rightarrow> ECIES)"

text \<open>Modelled from the spec: \<^verbatim>\<open>encrypt(plaintext, recipientPublicKey)\<close>, which dispatches on
  the scheme of the recipient's key. RSA: encrypt the plaintext with AES under a random session
  key and IV, wrap the session key with RSA-OAEP under the recipient's key. ECIES: ECDH of a
  fresh ephemeral secret with the recipient's public point, SHA-256 of the shared secret as the
  AES-256-GCM key, the tag kept apart in the envelope.\<close>

definition encrypt :: "crypto \<Rightarrow> entropy \<Rightarrow> string \<Rightarrow> public_key_record \<Rightarrow> envelope" where
  "encrypt cr rnd plaintext recipientPublicKey =
     (case recipientPublicKey of
        RSA_public km \<Rightarrow>
          RSA_envelope (rsa_wrap cr km (session_key rnd)) (fresh_iv rnd)
            (aes_encrypt cr (session_key rnd) (fresh_iv rnd) plaintext)
      | ECIES_public crv km \<Rightarrow>
          (let key = sha256 cr (ecdh cr (ephemeral_secret rnd) km)
           in case gcm_encrypt cr key (fresh_iv rnd) plaintext of
                (ct, tag) \<Rightarrow>
                  ECIES_envelope (ec_public cr (ephemeral_secret rnd)) (fresh_iv rnd) ct tag crv))"

text \<open>Modelled from the spec: \<^verbatim>\<open>decrypt(envelope, privateKey)\<close>. A scheme other than the key
  pair's is \<open>SchemeMismatch\<close>; a failed unwrap, padding or tag check is
  \<open>AuthenticationFailed\<close>.\<close>

definition decrypt :: "crypto \<Rightarrow> envelope \<Rightarrow> key_pair \<Rightarrow> codec_error + string" where
  "decrypt cr env kp =
     (if envelope_type env \<noteq> kp_scheme kp then Inl SchemeMismatch
      else
        (case env of
           RSA_envelope ek v ed \<Rightarrow>
             (case rsa_unwrap cr (privateKey kp) ek of
                None \<Rightarrow> Inl AuthenticationFailed
              | Some k \<Rightarrow>
                  (case aes_decrypt cr k v ed of
                     None \<Rightarrow> Inl AuthenticationFailed
                   | Some p \<Rightarrow> Inr p))
         | ECIES_envelope epk v ed tag crv \<Rightarrow>
             (case gcm_decrypt cr (sha256 cr (ecdh cr (privateKey kp) epk)) v ed tag of
                None \<Rightarrow> Inl AuthenticationFailed
              | Some p \<Rightarrow> Inr p)))"

text \<open>What the codec relies on in the primitives: decryption under the same key and IV
  inverts encryption, and the two sides of ECDH agree.\<close>

definition sound_crypto :: "crypto \<Rightarrow> bool" where
  "sound_crypto cr =
     ((\<forall>k v p. aes_decrypt cr k v (aes_encrypt cr k v p) = Some p)
      \<and> (\<forall>k v p. gcm_decrypt cr k v (fst (gcm_encrypt cr k v p)) (snd (gcm_encrypt cr k v p))
                     = Some p)
      \<and> (\<forall>a b. ecdh cr a (ec_public cr b) = ecdh cr b (ec_public cr a)))"

text \<open>Modelled from the spec: a key pair whose private key matches its public record, with
  the same scheme on both. For RSA, unwrapping under the private key inverts wrapping under the
  public key; for ECIES, the public record holds the public point of the secret.\<close>

definition matching_pair :: "crypto \<Rightarrow> key_pair \<Rightarrow> bool" where
  "matching_pair cr kp =
     (case publicKey kp of
        RSA_public km \<Rightarrow>
          kp_scheme kp = RSA \<and> (\<forall>k. rsa_unwrap cr (privateKey kp) (rsa_wrap cr km k) = Some k)
      | ECIES_public crv km \<Rightarrow>
          kp_scheme kp = ECIES \<and> km = ec_public cr (privateKey kp))"

section \<open>Sample inputs\<close>

definition sample_env :: env where
  "sample_env = [''MIRROR_NODE_URL'' \<mapsto> ''https://testnet.mirrornode.hedera.com'']"

definition entry :: "int \<Rightarrow> topic_message" where
  "entry n = \<lparr>sequence_number = n, consensus_timestamp = [], message = []\<rparr>"

definition sample_credentials :: env where
  "sample_credentials =
     [''HEDERA_ACCOUNT_ID'' \<mapsto> ''0.0.1441'', ''HEDERA_PRIVATE_KEY'' \<mapsto> ''3030020100'',
      ''HEDERA_NETWORK'' \<mapsto> ''MainNet'']"

text \<open>An SDK that accepts every credential string and keeps it as it is.\<close>

definition sample_sdk :: "(string, string) sdk" where
  "sample_sdk = \<lparr>AccountId_fromString = Inr, PrivateKey_fromStringDer = Inr\<rparr>"

text \<open>An SDK that accepts every account id and rejects every private key.\<close>

definition rejecting_sdk :: "(string, string) sdk" where
  "rejecting_sdk =
     \<lparr>AccountId_fromString = Inr, PrivateKey_fromStringDer = (\<lambda>s. Inl ''invalid private key'')\<rparr>"

text \<open>A ledger that answers every submission with the receipt \<open>r\<close>.\<close>

definition const_execute :: "receipt \<Rightarrow> unit \<Rightarrow> string \<Rightarrow> string \<Rightarrow> string + receipt" where
  "const_execute r client topic msg = Inr r"

text \<open>A service that ignores the query and answers every request with the same full page:
  100 copies of the entry numbered 1.\<close>

definition stuck_node :: http where
  "stuck_node req = Parsed \<lparr>messages = Some (replicate 100 (entry 1))\<rparr>"

text \<open>Toy primitives and two key pairs, to run the codec on.\<close>

definition toy_crypto :: crypto where
  "toy_crypto =
     \<lparr>aes_encrypt = (\<lambda>k v p. k @ v @ p),
      aes_decrypt = (\<lambda>k v c. if take (length k + length v) c = k @ v
                              then Some (drop (length k + length v) c) else None),
      rsa_wrap = (\<lambda>pk k. pk @ k),
      rsa_unwrap = (\<lambda>sk c. if take (length sk) c = sk then Some (drop (length sk) c) else None),
      gcm_encrypt = (\<lambda>k v p. (rev p, k @ v)),
      gcm_decrypt = (\<lambda>k v c t. if t = k @ v then Some (rev c) else None),
      ecdh = (\<lambda>a b. replicate (length a * length b) CHR ''s''),
      ec_public = (\<lambda>a. replicate (length a) CHR ''g''),
      sha256 = rev\<rparr>"

definition toy_rsa_pair :: key_pair where
  "toy_rsa_pair = \<lparr>kp_scheme = RSA, privateKey = ''rsa'', publicKey = RSA_public ''rsa''\<rparr>"

definition toy_ecies_pair :: key_pair where
  "toy_ecies_pair =
     \<lparr>kp_scheme = ECIES, privateKey = ''abc'', publicKey = ECIES_public ''secp256k1'' ''ggg''\<rparr>"

definition toy_entropy :: entropy where
  "toy_entropy = \<lparr>session_key = ''k'', fresh_iv = ''iv'', ephemeral_secret = ''e''\<rparr>"

section \<open>Decimal text is read back\<close>

lemma digit_val_digit_char: "d < 10 \<Longrightarrow> digit_val (digit_char d) = Some d"
proof -
  assume "d < 10"
  then have "d \<in> {0, 1, 2, 3, 4, 5, 6, 7, 8, 9}" by auto
  then show ?thesis by (auto simp: digit_val_def digit_char_def)
qed

lemma parse_digits_append:
  "parse_digits acc (xs @ ys) =
     (case parse_digits acc xs of None \<Rightarrow> None | Some a \<Rightarrow> parse_digits a ys)"
  by (induction xs arbitrary: acc) (auto split: option.splits)

lemma parse_digits_show_nat: "parse_digits 0 (show_nat n) = Some n"
proof (induction n rule: show_nat.induct)
  case (1 n)
  show ?case
  proof (cases "n < 10")
    case True
    then show ?thesis by (simp add: show_nat.simps [of n] digit_val_digit_char)
  next
    case False
    with 1 show ?thesis
      by (simp add: show_nat.simps [of n] parse_digits_append digit_val_digit_char)
  qed
qed

lemma show_nat_nonempty: "show_nat n \<noteq> []"
  by (subst show_nat.simps) simp

lemma digit_char_not_minus: "d < 10 \<Longrightarrow> digit_char d \<noteq> CHR ''-''"
proof -
  assume "d < 10"
  then have "d \<in> {0, 1, 2, 3, 4, 5, 6, 7, 8, 9}" by auto
  then show ?thesis by (auto simp: digit_char_def)
qed

lemma hd_show_nat: "hd (show_nat n) \<noteq> CHR ''-''"
proof (induction n rule: show_nat.induct)
  case (1 n)
  show ?case
  proof (cases "n < 10")
    case True
    then show ?thesis by (simp add: show_nat.simps [of n] digit_char_not_minus)
  next
    case False
    with 1 show ?thesis by (simp add: show_nat.simps [of n] show_nat_nonempty)
  qed
qed

lemma parse_nat_show_nat: "parse_nat (show_nat n) = Some n"
  by (simp add: parse_nat_def show_nat_nonempty parse_digits_show_nat)

lemma parse_int_show_int: "parse_int (show_int i) = Some i"
proof (cases "i < 0")
  case True
  then show ?thesis by (simp add: parse_int_def show_int_def parse_nat_show_nat)
next
  case False
  obtain c r where cr: "show_nat (nat i) = c # r"
    using show_nat_nonempty [of "nat i"] by (cases "show_nat (nat i)") auto
  have "c \<noteq> CHR ''-''" using hd_show_nat [of "nat i"] cr by simp
  with False cr show ?thesis
    using parse_nat_show_nat [of "nat i"] by (simp add: parse_int_def show_int_def)
qed

lemma parse_nat_show_int: "0 \<le> i \<Longrightarrow> parse_nat (show_int i) = Some (nat i)"
  by (simp add: show_int_def parse_nat_show_nat)

lemma parse_filter_gt: "parse_filter (''gt:'' @ show_int n) = Some (\<lambda>s. s > n)"
  by (simp add: parse_filter_def parse_int_show_int)

lemma parse_filter_gte: "parse_filter (''gte:'' @ show_int n) = Some (\<lambda>s. s \<ge> n)"
  by (simp add: parse_filter_def parse_int_show_int)

lemma parse_filter_lt: "parse_filter (''lt:'' @ show_int n) = Some (\<lambda>s. s < n)"
  by (simp add: parse_filter_def parse_int_show_int)

lemma parse_filter_lte: "parse_filter (''lte:'' @ show_int n) = Some (\<lambda>s. s \<le> n)"
  by (simp add: parse_filter_def parse_int_show_int)

section \<open>Sorted lists\<close>

lemma sorted_le_last:
  fixes f :: "'a \<Rightarrow> int"
  assumes "sorted_wrt (<) (map f xs)" and "x \<in> set xs"
  shows "f x \<le> f (last xs)"
proof -
  from assms(2) have ne: "xs \<noteq> []" by auto
  then have split: "xs = butlast xs @ [last xs]" by simp
  have "sorted_wrt (<) (map f (butlast xs @ [last xs]))" using assms(1) split by simp
  then have "\<forall>z\<in>set (butlast xs). f z < f (last xs)"
    by (simp add: sorted_wrt_append)
  moreover from assms(2) split have "x \<in> set (butlast xs) \<or> x = last xs"
    by (metis Un_iff insert_iff list.set(2) set_append empty_set empty_iff)
  ultimately show ?thesis by (auto simp: less_imp_le)
qed

lemma filter_above_last:
  fixes f :: "'a \<Rightarrow> int"
  assumes "sorted_wrt (<) (map f (ys @ zs))" and "ys \<noteq> []"
  shows "filter (\<lambda>m. f (last ys) < f m) (ys @ zs) = zs"
proof -
  from assms(1) have sy: "sorted_wrt (<) (map f ys)"
    and cross: "\<forall>y\<in>set ys. \<forall>z\<in>set zs. f y < f z"
    by (auto simp: sorted_wrt_append)
  have "\<forall>y\<in>set ys. \<not> f (last ys) < f y"
    using sorted_le_last [OF sy] by (auto simp: not_less)
  then have "filter (\<lambda>m. f (last ys) < f m) ys = []" by (simp add: filter_empty_conv)
  moreover have "\<forall>z\<in>set zs. f (last ys) < f z" using cross assms(2) by simp
  then have "filter (\<lambda>m. f (last ys) < f m) zs = zs" by (simp add: filter_id_conv)
  ultimately show ?thesis by simp
qed

lemma Max_sorted_last:
  fixes f :: "'a \<Rightarrow> int"
  assumes "sorted_wrt (<) (map f xs)" and "xs \<noteq> []"
  shows "Max (f ` set xs) = f (last xs)"
proof (rule Max_eqI)
  show "finite (f ` set xs)" by simp
  show "f (last xs) \<in> f ` set xs" using assms(2) by simp
  fix y assume "y \<in> f ` set xs"
  then obtain x where "x \<in> set xs" and "y = f x" by auto
  with sorted_le_last [OF assms(1)] show "y \<le> f (last xs)" by simp
qed

section \<open>What the mirror node answers to the module's queries\<close>

lemma mirror_configured_sample: "mirror_configured sample_env"
  by (simp add: mirror_configured_def sample_env_def truthy_str_def)

lemma request_configured:
  "mirror_configured env \<Longrightarrow>
   \<exists>u. u \<noteq> [] \<and> env ''MIRROR_NODE_URL'' = Some u \<and>
     queryTopicMessages_request env topic options =
       Inr \<lparr>url_base = u, url_topic = topic, url_params = queryTopicMessages_params options\<rparr>"
  by (auto simp: mirror_configured_def truthy_str_def queryTopicMessages_request_def
        getMirrorNodeUrl_def split: option.splits)

lemma request_unconfigured:
  "\<not> mirror_configured env \<Longrightarrow>
   queryTopicMessages_request env topic options = Inl undefined_client"
  by (simp add: mirror_configured_def queryTopicMessages_request_def getMirrorNodeUrl_def)

lemma query_unconfigured:
  "\<not> mirror_configured env \<Longrightarrow>
   queryTopicMessages env get topic options = Inl undefined_client"
  by (simp add: queryTopicMessages_def request_unconfigured)

lemma credentials_unconfigured: "\<not> mirror_configured sample_credentials"
  by (simp add: mirror_configured_def sample_credentials_def truthy_str_def)

lemma show_int_100: "show_int 100 = ''100''"
  by (simp add: show_int_def show_nat.simps digit_char_def)

lemma params_new_options:
  "queryTopicMessages_params (new_options c) =
     [(''limit'', show_int 100), (''order'', ''asc'')]
     @ (if c = 0 then [] else [(''sequencenumber'', ''gt:'' @ show_int c)])"
  by (simp add: queryTopicMessages_params_def new_options_def truthy_num_def truthy_str_def)

lemma mirror_node_new:
  "mirror_node log \<lparr>url_base = u, url_topic = topic,
       url_params = queryTopicMessages_params (new_options c)\<rparr> =
     Parsed \<lparr>messages = Some (take 100 (if c = 0 then log
                                else filter (\<lambda>m. c < sequence_number m) log))\<rparr>"
  by (simp add: mirror_node_def params_new_options parse_nat_show_int parse_filter_gt
        del: append.simps)

lemma query_new:
  "mirror_configured env \<Longrightarrow>
   queryTopicMessages env (mirror_node log) topic (new_options c) =
     Inr \<lparr>messages = Some (take 100 (if c = 0 then log
                              else filter (\<lambda>m. c < sequence_number m) log))\<rparr>"
  using request_configured [of env topic "new_options c"]
  by (auto simp: queryTopicMessages_def mirror_node_new settle_def)

lemma filter_positive:
  "list_all (\<lambda>m. 1 \<le> sequence_number m) log \<Longrightarrow>
   filter (\<lambda>m. 0 < sequence_number m) log = log"
  by (induction log) auto

lemma query_new_wf:
  assumes "mirror_configured env" and "wf_log log"
  shows "queryTopicMessages env (mirror_node log) topic (new_options c) =
     Inr \<lparr>messages = Some (take 100 (filter (\<lambda>m. c < sequence_number m) log))\<rparr>"
proof (cases "c = 0")
  case True
  with assms show ?thesis by (simp add: query_new wf_log_def filter_positive)
next
  case False
  with assms show ?thesis by (simp add: query_new)
qed

lemma show_int_1: "show_int 1 = ''1''"
  by (simp add: show_int_def show_nat.simps digit_char_def)

lemma params_latest_options:
  "queryTopicMessages_params latest_options = [(''limit'', ''1''), (''order'', ''desc'')]"
  by (simp add: queryTopicMessages_params_def latest_options_def truthy_num_def truthy_str_def
        show_int_1)

lemma mirror_node_latest:
  "mirror_node log \<lparr>url_base = u, url_topic = topic,
       url_params = queryTopicMessages_params latest_options\<rparr> =
     Parsed \<lparr>messages = Some (take 1 (rev log))\<rparr>"
  by (simp add: mirror_node_def params_latest_options parse_nat_def digit_val_def)

lemma query_latest:
  "mirror_configured env \<Longrightarrow>
   queryTopicMessages env (mirror_node log) topic latest_options =
     Inr \<lparr>messages = Some (take 1 (rev log))\<rparr>"
  using request_configured [of env topic latest_options]
  by (auto simp: queryTopicMessages_def mirror_node_latest settle_def)

lemma latest_of_log:
  "mirror_configured env \<Longrightarrow>
   getLatestSequenceNumber env (mirror_node log) topic =
     Inr (if log = [] \<or> sequence_number (last log) = 0 then None
          else Some (sequence_number (last log)))"
  by (cases log rule: rev_cases) (simp_all add: getLatestSequenceNumber_def query_latest)

section \<open>The text of the query string\<close>











section \<open>The loop of getMessagesInRange\<close>

lemma scan_page_last:
  "scan_page s e page (acc, lst, hm) = (acc', lst', True) \<Longrightarrow> page \<noteq> [] \<Longrightarrow>
   lst' = sequence_number (last page)"
proof (induction page arbitrary: acc lst)
  case Nil
  then show ?case by simp
next
  case (Cons m ms)
  show ?case
  proof (cases "ms = []")
    case True
    with Cons.prems show ?thesis by (auto split: if_splits)
  next
    case False
    with Cons show ?thesis by (auto split: if_splits)
  qed
qed

lemma scan_page_keeps_going:
  "\<forall>m\<in>set page. \<not> past_end e m \<Longrightarrow>
   snd (snd (scan_page s e page (acc, lst, hm))) = hm"
  by (induction page arbitrary: acc lst) auto

lemma scan_page_sorted:
  assumes "sorted_wrt (<) (map sequence_number page)"
    and "\<forall>m\<in>set page. s \<le> sequence_number m" and "e \<noteq> 0"
  shows "scan_page s (Some e) page (acc, lst, hm) =
           (acc @ filter (\<lambda>m. sequence_number m \<le> e) page,
            (if filter (\<lambda>m. sequence_number m \<le> e) page = [] then lst
             else sequence_number (last (filter (\<lambda>m. sequence_number m \<le> e) page))),
            hm \<and> list_all (\<lambda>m. sequence_number m \<le> e) page)"
  using assms
proof (induction page arbitrary: acc lst)
  case Nil
  then show ?case by simp
next
  case (Cons m ms)
  show ?case
  proof (cases "sequence_number m \<le> e")
    case True
    with Cons show ?thesis by (simp add: past_end_def)
  next
    case False
    with Cons.prems(1) have "\<forall>x\<in>set ms. \<not> sequence_number x \<le> e" by auto
    then have "filter (\<lambda>m. sequence_number m \<le> e) ms = []" by (simp add: filter_empty_conv)
    with False Cons.prems(3) show ?thesis by (simp add: past_end_def)
  qed
qed

lemma range_loop_honest:
  assumes conf: "mirror_configured env" and wf: "wf_log log" and e: "e \<noteq> 0"
  shows "s - 1 \<le> lst \<Longrightarrow>
         range_loop env (mirror_node log) topic s (Some e) acc lst =
           Some (Inr (acc @ filter (\<lambda>m. lst < sequence_number m \<and> sequence_number m \<le> e) log))"
proof (induction "length (filter (\<lambda>m. lst < sequence_number m) log)" arbitrary: acc lst
    rule: less_induct)
  case less
  define xs where "xs = filter (\<lambda>m. lst < sequence_number m) log"
  define page where "page = take 100 xs"
  have sorted_log: "sorted_wrt (<) (map sequence_number log)" using wf by (simp add: wf_log_def)
  have sorted_xs: "sorted_wrt (<) (map sequence_number xs)"
    unfolding xs_def using sorted_log by (simp add: sorted_wrt_map sorted_wrt_filter)
  have q: "queryTopicMessages env (mirror_node log) topic (new_options lst) =
             Inr \<lparr>messages = Some page\<rparr>"
    using query_new_wf [OF conf wf] by (simp add: page_def xs_def)
  have target: "filter (\<lambda>m. lst < sequence_number m \<and> sequence_number m \<le> e) log =
                  filter (\<lambda>m. sequence_number m \<le> e) xs"
    by (simp add: xs_def)
  show ?case
  proof (cases "page = []")
    case True
    then have "xs = []" by (simp add: page_def)
    with q True target show ?thesis by (subst range_loop.simps) simp
  next
    case False
    have split: "page @ drop 100 xs = xs" by (simp add: page_def)
    have sorted_split: "sorted_wrt (<) (map sequence_number (page @ drop 100 xs))"
      using sorted_xs by (simp only: split)
    then have sorted_page: "sorted_wrt (<) (map sequence_number page)"
      and cross: "\<forall>y\<in>set page. \<forall>z\<in>set (drop 100 xs). sequence_number y < sequence_number z"
      by (auto simp: sorted_wrt_append)
    have above: "\<forall>m\<in>set page. s \<le> sequence_number m"
    proof
      fix m assume "m \<in> set page"
      then have "m \<in> set xs" unfolding page_def by (rule in_set_takeD)
      then have "lst < sequence_number m" by (simp add: xs_def)
      with less.prems show "s \<le> sequence_number m" by simp
    qed
    note sc = scan_page_sorted [OF sorted_page above e, of acc lst True]
    show ?thesis
    proof (cases "list_all (\<lambda>m. sequence_number m \<le> e) page")
      case stopped: False
      then obtain m where m: "m \<in> set page" "e < sequence_number m"
        by (auto simp: list_all_iff not_le)
      from cross m have "\<forall>z\<in>set (drop 100 xs). \<not> sequence_number z \<le> e" by fastforce
      then have "filter (\<lambda>m. sequence_number m \<le> e) (drop 100 xs) = []"
        by (simp add: filter_empty_conv)
      then have "filter (\<lambda>m. sequence_number m \<le> e) (page @ drop 100 xs) =
                   filter (\<lambda>m. sequence_number m \<le> e) page"
        by simp
      then have "filter (\<lambda>m. sequence_number m \<le> e) xs =
                   filter (\<lambda>m. sequence_number m \<le> e) page"
        by (simp only: split)
      with q False sc stopped target show ?thesis
        by (subst range_loop.simps) simp
    next
      case True
      then have all: "filter (\<lambda>m. sequence_number m \<le> e) page = page"
        by (simp add: filter_id_conv list_all_iff)
      show ?thesis
      proof (cases "length page < 100")
        case short: True
        then have "page = xs" by (simp add: page_def)
        with q False sc True all short target show ?thesis
          by (subst range_loop.simps) simp
      next
        case full: False
        let ?l = "sequence_number (last page)"
        have "filter (\<lambda>m. ?l < sequence_number m) (page @ drop 100 xs) = drop 100 xs"
          using sorted_split False by (rule filter_above_last)
        then have rest: "filter (\<lambda>m. ?l < sequence_number m) xs = drop 100 xs"
          by (simp only: split)
        have "last page \<in> set (page @ drop 100 xs)" using False by simp
        then have "last page \<in> set xs" by (simp only: split)
        then have gt: "lst < ?l" by (simp add: xs_def)
        have narrow: "filter (\<lambda>m. ?l < sequence_number m) log =
                      filter (\<lambda>m. ?l < sequence_number m) xs"
          unfolding xs_def using gt by (auto intro: filter_cong)
        have "length (drop 100 xs) < length xs" using False by (simp add: page_def)
        then have "length (filter (\<lambda>m. ?l < sequence_number m) log) < length xs"
          by (simp only: narrow rest)
        then have dec: "length (filter (\<lambda>m. ?l < sequence_number m) log)
                 < length (filter (\<lambda>m. lst < sequence_number m) log)"
          by (simp only: xs_def)
        have "s - 1 \<le> ?l" using gt less.prems by simp
        from less.hyps [OF dec this, of "acc @ page"]
        have rec: "range_loop env (mirror_node log) topic s (Some e) (acc @ page) ?l =
            Some (Inr (acc @ page @ filter (\<lambda>m. sequence_number m \<le> e) (drop 100 xs)))"
          using narrow rest
          by (simp add: filter_filter [symmetric] del: filter_filter)
        have "filter (\<lambda>m. sequence_number m \<le> e) (page @ drop 100 xs) =
                page @ filter (\<lambda>m. sequence_number m \<le> e) (drop 100 xs)"
          by (simp add: all)
        then have "filter (\<lambda>m. sequence_number m \<le> e) xs =
                page @ filter (\<lambda>m. sequence_number m \<le> e) (drop 100 xs)"
          by (simp only: split)
        with q False sc True all full target rec show ?thesis
          by (subst range_loop.simps) simp
      qed
    qed
  qed
qed

lemma range_loop_terminates:
  assumes honest: "\<forall>b r ms. queryTopicMessages env get topic (new_options b) = Inr r
             \<and> messages r = Some ms
             \<longrightarrow> (\<forall>m\<in>set ms. b < sequence_number m \<and> m \<in> set log)"
  shows "\<exists>r. range_loop env get topic s e acc lst = Some r"
proof (induction "card {x \<in> sequence_number ` set log. lst < x}" arbitrary: acc lst
    rule: less_induct)
  case less
  show ?case
  proof (cases "queryTopicMessages env get topic (new_options lst)")
    case (Inl err)
    then show ?thesis by (subst range_loop.simps) simp
  next
    case (Inr r)
    show ?thesis
    proof (cases "messages r")
      case None
      with Inr show ?thesis by (subst range_loop.simps) simp
    next
      case (Some page)
      show ?thesis
      proof (cases "page = []")
        case True
        with Inr Some show ?thesis by (subst range_loop.simps) simp
      next
        case False
        obtain acc' lst' hm where sc:
          "scan_page s e page (acc, lst, True) = (acc', lst', hm)"
          by (cases "scan_page s e page (acc, lst, True)") auto
        show ?thesis
        proof (cases "hm \<and> \<not> length page < 100")
          case stop: False
          with Inr Some False sc show ?thesis
            by (subst range_loop.simps) auto
        next
          case True
          with sc False have l': "lst' = sequence_number (last page)"
            using scan_page_last [of s e page acc lst True acc' lst'] by simp
          from False have "last page \<in> set page" by simp
          with honest Inr Some have
            gt: "lst < sequence_number (last page)" and
            mem: "last page \<in> set log"
            by blast+
          have "{x \<in> sequence_number ` set log. lst' < x}
                  \<subset> {x \<in> sequence_number ` set log. lst < x}"
            using gt mem l' by auto
          then have "card {x \<in> sequence_number ` set log. lst' < x}
                  < card {x \<in> sequence_number ` set log. lst < x}"
            by (intro psubset_card_mono) auto
          from less [OF this] obtain r' where
            "range_loop env get topic s e acc' lst' = Some r'" by blast
          with Inr Some False sc True show ?thesis
            by (subst range_loop.simps) auto
        qed
      qed
    qed
  qed
qed

lemma query_stuck:
  "queryTopicMessages sample_env stuck_node topic options =
     Inr \<lparr>messages = Some (replicate 100 (entry 1))\<rparr>"
  using request_configured [OF mirror_configured_sample, of topic options]
  by (auto simp: queryTopicMessages_def settle_def stuck_node_def)

lemma range_loop_stuck:
  "range_loop sample_env stuck_node topic s (Some 5) acc lst = None"
proof (cases "range_loop sample_env stuck_node topic s (Some 5) acc lst")
  case None
  then show ?thesis .
next
  case (Some y)
  have "\<not> (sample_env = sample_env \<and> stuck_node = stuck_node \<and> Some (5::int) = Some 5)"
  proof (rule range_loop.raw_induct
      [where P = "\<lambda>env get topic s e acc lst y.
                    \<not> (env = sample_env \<and> get = stuck_node \<and> e = Some 5)", OF _ Some])
    fix loop :: "env \<Rightarrow> http \<Rightarrow> string \<Rightarrow> int \<Rightarrow> int option \<Rightarrow> topic_message list \<Rightarrow> int
                   \<Rightarrow> (string + topic_message list) option"
    fix env get topic s e acc lst y
    assume IH: "\<And>env get topic s e acc lst y. loop env get topic s e acc lst = Some y \<Longrightarrow>
                  \<not> (env = sample_env \<and> get = stuck_node \<and> e = Some 5)"
    assume step: "(case queryTopicMessages env get topic (new_options lst) of
        Inl e \<Rightarrow> Some (Inl (''Failed to get messages in range: '' @ e))
      | Inr r \<Rightarrow>
          (case messages r of
             None \<Rightarrow> Some (Inr acc)
           | Some page \<Rightarrow>
               if page = [] then Some (Inr acc)
               else
                 (case scan_page s e page (acc, lst, True) of
                    (allMessages', lastSequence', hasMore) \<Rightarrow>
                      if hasMore \<and> \<not> length page < 100
                      then loop env get topic s e allMessages' lastSequence'
                      else Some (Inr allMessages')))) = Some y"
    show "\<not> (env = sample_env \<and> get = stuck_node \<and> e = Some 5)"
    proof
      assume a: "env = sample_env \<and> get = stuck_node \<and> e = Some 5"
      obtain acc' lst' hm where sc:
        "scan_page s e (replicate 100 (entry 1)) (acc, lst, True) = (acc', lst', hm)"
        by (cases "scan_page s e (replicate 100 (entry 1)) (acc, lst, True)") auto
      have "\<forall>m\<in>set (replicate 100 (entry 1)). \<not> past_end e m"
        using a by (simp add: past_end_def entry_def)
      from scan_page_keeps_going [OF this, of s acc lst True] sc have "hm" by simp
      with step a sc have "loop env get topic s e acc' lst' = Some y"
        by (simp add: query_stuck)
      with IH a show False by blast
    qed
  qed
  then show ?thesis by simp
qed

section \<open>The envelope codec round trip\<close>

lemma sound_toy: "sound_crypto toy_crypto"
  by (simp add: sound_crypto_def toy_crypto_def mult.commute)

text \<open>
  C1. For every plaintext and each of the two schemes, decrypting the envelope that
  \<^verbatim>\<open>encrypt\<close> produces for the public record of a key pair, with that key pair, returns the
  plaintext, whatever the random choices of the encryption; the envelope carries the scheme of
  the recipient's key. The primitives are sound and the key pair matches.
\<close>

theorem round_trip:
  assumes "sound_crypto cr" and "matching_pair cr kp"
  shows "decrypt cr (encrypt cr rnd P (publicKey kp)) kp = Inr P
         \<and> envelope_type (encrypt cr rnd P (publicKey kp)) = scheme_of (publicKey kp)
         \<and> scheme_of (publicKey kp) = kp_scheme kp"
proof (cases "publicKey kp")
  case (RSA_public km)
  with assms show ?thesis
    by (simp add: decrypt_def encrypt_def envelope_type_def scheme_of_def sound_crypto_def
          matching_pair_def)
next
  case (ECIES_public crv km)
  obtain ct tag where g:
    "gcm_encrypt cr (sha256 cr (ecdh cr (ephemeral_secret rnd) km)) (fresh_iv rnd) P = (ct, tag)"
    by (cases "gcm_encrypt cr (sha256 cr (ecdh cr (ephemeral_secret rnd) km)) (fresh_iv rnd) P")
  from assms(2) ECIES_public have km: "km = ec_public cr (privateKey kp)"
    and sch: "kp_scheme kp = ECIES"
    by (simp_all add: matching_pair_def)
  from assms(1) have agree:
    "ecdh cr (privateKey kp) (ec_public cr (ephemeral_secret rnd)) =
       ecdh cr (ephemeral_secret rnd) (ec_public cr (privateKey kp))"
    by (simp add: sound_crypto_def)
  from assms(1) have
    "gcm_decrypt cr (sha256 cr (ecdh cr (ephemeral_secret rnd) km)) (fresh_iv rnd)
       (fst (gcm_encrypt cr (sha256 cr (ecdh cr (ephemeral_secret rnd) km)) (fresh_iv rnd) P))
       (snd (gcm_encrypt cr (sha256 cr (ecdh cr (ephemeral_secret rnd) km)) (fresh_iv rnd) P))
     = Some P"
    unfolding sound_crypto_def by blast
  with g have "gcm_decrypt cr (sha256 cr (ecdh cr (ephemeral_secret rnd) km)) (fresh_iv rnd) ct tag
     = Some P" by simp
  with ECIES_public g km sch agree show ?thesis
    by (simp add: decrypt_def encrypt_def envelope_type_def scheme_of_def)
qed

theorem round_trip_witness:
  "sound_crypto toy_crypto \<and> matching_pair toy_crypto toy_rsa_pair
   \<and> matching_pair toy_crypto toy_ecies_pair
   \<and> decrypt toy_crypto (encrypt toy_crypto toy_entropy ''hello'' (publicKey toy_rsa_pair))
        toy_rsa_pair = Inr ''hello''
   \<and> decrypt toy_crypto (encrypt toy_crypto toy_entropy ''hello'' (publicKey toy_ecies_pair))
        toy_ecies_pair = Inr ''hello''"
proof -
  have r: "matching_pair toy_crypto toy_rsa_pair"
    by (simp add: matching_pair_def toy_crypto_def toy_rsa_pair_def)
  have e: "matching_pair toy_crypto toy_ecies_pair"
    by (simp add: matching_pair_def toy_crypto_def toy_ecies_pair_def)
  from round_trip [OF sound_toy r, of toy_entropy "''hello''"]
    round_trip [OF sound_toy e, of toy_entropy "''hello''"] sound_toy r e
  show ?thesis by simp
qed

section \<open>Fetching new entries\<close>

text \<open>With the mirror node URL configured, the query for the entries after 0 on a log of
  three entries numbered 1, 2 and 3 (whatever their timestamps and payloads) returns the three
  entries in ascending order, in one batch.\<close>

lemma new_messages_three_configured:
  "mirror_configured env \<Longrightarrow>
   getNewMessages env
     (mirror_node [a\<lparr>sequence_number := 1\<rparr>, b\<lparr>sequence_number := 2\<rparr>,
                   c\<lparr>sequence_number := 3\<rparr>]) topic 0 =
     Inr [a\<lparr>sequence_number := 1\<rparr>, b\<lparr>sequence_number := 2\<rparr>, c\<lparr>sequence_number := 3\<rparr>]"
  by (simp add: getNewMessages_def query_new)

text \<open>Without the URL every call throws, whatever the service and the cursor: the query reads
  \<^verbatim>\<open>getMirrorNodeUrl()\<close> without the client that the fallback of that function needs.\<close>

lemma getNewMessages_unconfigured:
  "\<not> mirror_configured env \<Longrightarrow>
   getNewMessages env get topic c = Inl (''Failed to get new messages: '' @ undefined_client)"
  by (simp add: getNewMessages_def query_unconfigured)

text \<open>
  C3. With the cursor at 0 and a log of exactly three entries numbered 1, 2 and 3,
  \<^verbatim>\<open>getNewMessages(topicId, 0)\<close> is to return the three entries in ascending order in one
  batch. The code does so when \<^verbatim>\<open>MIRROR_NODE_URL\<close> is set. In an environment that holds
  the credentials and the network and leaves \<^verbatim>\<open>MIRROR_NODE_URL\<close> unset, the same call on
  the same log throws: \<^verbatim>\<open>queryTopicMessages\<close> calls \<^verbatim>\<open>getMirrorNodeUrl()\<close> without
  the client, and no request is sent.
\<close>

theorem getNewMessages_missing_client:
  "getNewMessages sample_credentials (mirror_node [entry 1, entry 2, entry 3])
       ''0.0.7193058'' 0 =
     Inl (''Failed to get new messages: '' @ undefined_client)
   \<and> getNewMessages sample_env (mirror_node [entry 1, entry 2, entry 3]) ''0.0.7193058'' 0 =
     Inr [entry 1, entry 2, entry 3]"
  using getNewMessages_unconfigured [OF credentials_unconfigured]
    new_messages_three_configured [OF mirror_configured_sample,
      of "entry 1" "entry 2" "entry 3" "''0.0.7193058''"]
  by (simp add: entry_def)

text \<open>
  C2, as stated, fails: \<^verbatim>\<open>getNewMessages\<close> issues one query with \<^verbatim>\<open>limit=100\<close> and has
  no loop. On a log of the 101 entries numbered 1 to 101 and the cursor 0 it returns the
  entries 1 to 100; entry 101 is left out.
\<close>

theorem new_messages_drain_counterexample:
  "getNewMessages sample_env (mirror_node (map entry [1..101])) ''0.0.7193058'' 0 =
     Inr (map entry [1..100])
   \<and> getNewMessages sample_env (mirror_node (map entry [1..101])) ''0.0.7193058'' 0 \<noteq>
     Inr (map entry [1..101])"
  by code_simp

text \<open>
  C2, amended. With \<^verbatim>\<open>MIRROR_NODE_URL\<close> configured, \<^verbatim>\<open>getNewMessages\<close> makes, for every
  cursor value \<open>c\<close>, one request: limit 100, ascending order, and the filter \<^verbatim>\<open>gt:c\<close>
  (left out when \<open>c\<close> is 0); what it returns is read from the reply to that one request, for
  every service. Against the mirror node answering for a log whose sequence numbers increase
  strictly from 1 or above it returns one page: the first 100 (or fewer) log entries with a
  sequence number above \<open>c\<close>, in ascending order. The page is the whole backlog when the
  backlog has at most 100 entries; a longer backlog is left to the caller's next calls.
\<close>

theorem new_messages_one_page:
  assumes "mirror_configured env" and "wf_log log"
  shows "\<exists>u. queryTopicMessages_request env topic (new_options c) =
               Inr \<lparr>url_base = u, url_topic = topic,
                    url_params = [(''limit'', ''100''), (''order'', ''asc'')]
                      @ (if c = 0 then [] else [(''sequencenumber'', ''gt:'' @ show_int c)])\<rparr>
           \<and> (\<forall>get. getNewMessages env get topic c =
                 (case settle (get \<lparr>url_base = u, url_topic = topic,
                          url_params = [(''limit'', ''100''), (''order'', ''asc'')]
                            @ (if c = 0 then []
                               else [(''sequencenumber'', ''gt:'' @ show_int c)])\<rparr>) of
                    Inl e \<Rightarrow> Inl (''Failed to get new messages: '' @ e)
                  | Inr r \<Rightarrow> Inr (case messages r of None \<Rightarrow> [] | Some ms \<Rightarrow> ms)))
           \<and> getNewMessages env (mirror_node log) topic c =
               Inr (take 100 (filter (\<lambda>m. c < sequence_number m) log))
           \<and> sorted_wrt (<)
               (map sequence_number (take 100 (filter (\<lambda>m. c < sequence_number m) log)))
           \<and> (length (filter (\<lambda>m. c < sequence_number m) log) \<le> 100 \<longrightarrow>
                getNewMessages env (mirror_node log) topic c =
                  Inr (filter (\<lambda>m. c < sequence_number m) log))"
proof -
  from request_configured [OF assms(1), of topic "new_options c"]
  obtain u where req:
    "queryTopicMessages_request env topic (new_options c) =
       Inr \<lparr>url_base = u, url_topic = topic,
            url_params = [(''limit'', ''100''), (''order'', ''asc'')]
              @ (if c = 0 then [] else [(''sequencenumber'', ''gt:'' @ show_int c)])\<rparr>"
    by (auto simp: params_new_options show_int_100)
  have one: "\<forall>get. getNewMessages env get topic c =
      (case settle (get \<lparr>url_base = u, url_topic = topic,
               url_params = [(''limit'', ''100''), (''order'', ''asc'')]
                 @ (if c = 0 then [] else [(''sequencenumber'', ''gt:'' @ show_int c)])\<rparr>) of
         Inl e \<Rightarrow> Inl (''Failed to get new messages: '' @ e)
       | Inr r \<Rightarrow> Inr (case messages r of None \<Rightarrow> [] | Some ms \<Rightarrow> ms))"
    by (simp add: getNewMessages_def queryTopicMessages_def req)
  have "sorted_wrt (<) (map sequence_number (filter (\<lambda>m. c < sequence_number m) log))"
    using assms(2) by (simp add: wf_log_def sorted_wrt_map sorted_wrt_filter)
  then have "sorted_wrt (<)
      (take 100 (map sequence_number (filter (\<lambda>m. c < sequence_number m) log)))"
    by (rule sorted_wrt_take)
  then have asc: "sorted_wrt (<)
      (map sequence_number (take 100 (filter (\<lambda>m. c < sequence_number m) log)))"
    by (simp only: take_map)
  have page: "getNewMessages env (mirror_node log) topic c =
      Inr (take 100 (filter (\<lambda>m. c < sequence_number m) log))"
    using assms by (simp add: getNewMessages_def query_new_wf)
  then have whole: "length (filter (\<lambda>m. c < sequence_number m) log) \<le> 100 \<longrightarrow>
      getNewMessages env (mirror_node log) topic c =
        Inr (filter (\<lambda>m. c < sequence_number m) log)"
    by simp
  from req one page asc whole show ?thesis by blast
qed

theorem new_messages_one_page_witness:
  "mirror_configured sample_env \<and> wf_log [entry 1, entry 2, entry 3]
   \<and> length (filter (\<lambda>m. 1 < sequence_number m) [entry 1, entry 2, entry 3]) \<le> 100
   \<and> getNewMessages sample_env (mirror_node [entry 1, entry 2, entry 3]) ''0.0.7193058'' 1 =
       Inr [entry 2, entry 3]"
  using new_messages_one_page [of sample_env "[entry 1, entry 2, entry 3]" "''0.0.7193058''" 1]
  by (auto simp: mirror_configured_sample wf_log_def entry_def)

section \<open>Messages in a range\<close>

text \<open>With the mirror node URL configured, on a log with strictly increasing sequence
  numbers and for bounds \<open>1 \<le> startSequence \<le> endSequence\<close>, the result is exactly the
  entries whose sequence number lies between the two bounds (both included), in ascending
  order.\<close>

lemma getMessagesInRange_configured:
  assumes "mirror_configured env" and "wf_log log" and "1 \<le> s" and "s \<le> e"
  shows "getMessagesInRange env (mirror_node log) topic s (Some e) =
           Some (Inr (filter (\<lambda>m. s \<le> sequence_number m \<and> sequence_number m \<le> e) log))
         \<and> sorted_wrt (<)
             (map sequence_number
                (filter (\<lambda>m. s \<le> sequence_number m \<and> sequence_number m \<le> e) log))"
proof -
  have "e \<noteq> 0" using assms(3,4) by simp
  from range_loop_honest [OF assms(1,2) this, of s "s - 1" topic "[]"]
  have "getMessagesInRange env (mirror_node log) topic s (Some e) =
          Some (Inr (filter (\<lambda>m. s - 1 < sequence_number m \<and> sequence_number m \<le> e) log))"
    by (simp add: getMessagesInRange_def)
  moreover have "filter (\<lambda>m. s - 1 < sequence_number m \<and> sequence_number m \<le> e) log =
                 filter (\<lambda>m. s \<le> sequence_number m \<and> sequence_number m \<le> e) log"
    by (rule filter_cong) auto
  moreover have "sorted_wrt (<)
      (map sequence_number
         (filter (\<lambda>m. s \<le> sequence_number m \<and> sequence_number m \<le> e) log))"
    using assms(2) by (simp add: wf_log_def sorted_wrt_map sorted_wrt_filter)
  ultimately show ?thesis by simp
qed

text \<open>One turn of the loop there: the page is the first 100 (or fewer) entries above the last
  sequence number seen. An empty page ends the loop; a page that passes the end bound or is
  shorter than 100 ends it with the entries of the page up to the bound; a full page within
  the bound is kept whole, and the next page is asked from its last sequence number.\<close>

lemma range_loop_page:
  assumes "mirror_configured env" and "wf_log log" and "e \<noteq> 0" and "s - 1 \<le> lst"
    and "page = take 100 (filter (\<lambda>m. lst < sequence_number m) log)"
  shows "range_loop env (mirror_node log) topic s (Some e) acc lst =
           (if page = [] then Some (Inr acc)
            else if (\<exists>m\<in>set page. e < sequence_number m) \<or> length page < 100
            then Some (Inr (acc @ filter (\<lambda>m. sequence_number m \<le> e) page))
            else range_loop env (mirror_node log) topic s (Some e) (acc @ page)
                   (sequence_number (last page)))"
proof -
  have q: "queryTopicMessages env (mirror_node log) topic (new_options lst) =
             Inr \<lparr>messages = Some page\<rparr>"
    using query_new_wf [OF assms(1,2)] assms(5) by simp
  have "sorted_wrt (<) (map sequence_number (filter (\<lambda>m. lst < sequence_number m) log))"
    using assms(2) by (simp add: wf_log_def sorted_wrt_map sorted_wrt_filter)
  then have "sorted_wrt (<)
      (take 100 (map sequence_number (filter (\<lambda>m. lst < sequence_number m) log)))"
    by (rule sorted_wrt_take)
  then have sorted_page: "sorted_wrt (<) (map sequence_number page)"
    by (simp only: take_map assms(5))
  have above: "\<forall>m\<in>set page. s \<le> sequence_number m"
  proof
    fix m assume "m \<in> set page"
    then have "m \<in> set (filter (\<lambda>m. lst < sequence_number m) log)"
      unfolding assms(5) by (rule in_set_takeD)
    with assms(4) show "s \<le> sequence_number m" by simp
  qed
  note sc = scan_page_sorted [OF sorted_page above assms(3), of acc lst True]
  have passed: "(\<exists>m\<in>set page. e < sequence_number m) \<longleftrightarrow>
                  \<not> list_all (\<lambda>m. sequence_number m \<le> e) page"
    by (auto simp: list_all_iff not_le)
  show ?thesis
  proof (cases "page = []")
    case True
    with q show ?thesis by (subst range_loop.simps) simp
  next
    case False
    show ?thesis
    proof (cases "list_all (\<lambda>m. sequence_number m \<le> e) page")
      case stopped: False
      with q False sc passed show ?thesis by (subst range_loop.simps) simp
    next
      case True
      then have all: "filter (\<lambda>m. sequence_number m \<le> e) page = page"
        by (simp add: filter_id_conv list_all_iff)
      with q False sc True passed show ?thesis by (subst range_loop.simps) simp
    qed
  qed
qed

text \<open>Without the URL the first query throws, and so does the call.\<close>

lemma getMessagesInRange_unconfigured:
  "\<not> mirror_configured env \<Longrightarrow>
   getMessagesInRange env get topic s e =
     Some (Inl (''Failed to get messages in range: '' @ undefined_client))"
  unfolding getMessagesInRange_def
  by (subst range_loop.simps) (simp add: query_unconfigured)

text \<open>
  C4. For bounds \<open>1 \<le> startSequence \<le> endSequence\<close>, \<^verbatim>\<open>getMessagesInRange\<close> is to return
  exactly the entries whose sequence number lies between the two bounds, in ascending order,
  fetching pages of at most 100 entries until a page is short or the end bound is passed. The
  code does so when \<^verbatim>\<open>MIRROR_NODE_URL\<close> is set: on a log of 120 entries and the bounds 5
  and 110 it returns the entries 5 to 110, from two pages. In an environment that holds the
  credentials and the network and leaves \<^verbatim>\<open>MIRROR_NODE_URL\<close> unset, the same call on the
  same log throws: \<^verbatim>\<open>queryTopicMessages\<close> calls \<^verbatim>\<open>getMirrorNodeUrl()\<close> without the
  client, and no request is sent.
\<close>

theorem getMessagesInRange_missing_client:
  "getMessagesInRange sample_credentials (mirror_node (map entry [1..120])) ''0.0.7193058'' 5
       (Some 110) =
     Some (Inl (''Failed to get messages in range: '' @ undefined_client))
   \<and> getMessagesInRange sample_env (mirror_node (map entry [1..120])) ''0.0.7193058'' 5
       (Some 110) = Some (Inr (map entry [5..110]))"
proof -
  have wf: "wf_log (map entry [1..120])" by code_simp
  have flt: "filter (\<lambda>m. 5 \<le> sequence_number m \<and> sequence_number m \<le> 110)
          (map entry [1..120]) = map entry [5..110]"
    by code_simp
  have "(1 :: int) \<le> 5" and "(5 :: int) \<le> 110" by simp_all
  from getMessagesInRange_configured [OF mirror_configured_sample wf this, of "''0.0.7193058''"]
  have "getMessagesInRange sample_env (mirror_node (map entry [1..120])) ''0.0.7193058'' 5
        (Some 110) = Some (Inr (map entry [5..110]))"
    by (simp only: flt)
  with getMessagesInRange_unconfigured [OF credentials_unconfigured] show ?thesis by simp
qed

text \<open>
  C10. \<^verbatim>\<open>getMessagesInRange\<close> returns (a list, or the error of a failed query) whenever
  every entry of every reply to the query for the entries after \<open>b\<close> has a sequence number
  above \<open>b\<close> and belongs to one finite log. Without that condition the loop need not end: on
  a service that answers every request with the same full page of entries numbered 1, the
  call never returns.
\<close>

theorem getMessagesInRange_terminates:
  "((\<forall>b r ms. queryTopicMessages env get topic (new_options b) = Inr r
               \<and> messages r = Some ms
               \<longrightarrow> (\<forall>m\<in>set ms. b < sequence_number m \<and> m \<in> set log))
      \<longrightarrow> (\<exists>r. getMessagesInRange env get topic s e = Some r))
   \<and> getMessagesInRange sample_env stuck_node ''0.0.7193058'' 1 (Some 5) = None"
proof -
  have "\<exists>r. getMessagesInRange env get topic s e = Some r"
    if "\<forall>b r ms. queryTopicMessages env get topic (new_options b) = Inr r
               \<and> messages r = Some ms
               \<longrightarrow> (\<forall>m\<in>set ms. b < sequence_number m \<and> m \<in> set log)"
    using range_loop_terminates [OF that, of s e "[]" "s - 1"]
    by (simp add: getMessagesInRange_def)
  moreover have "getMessagesInRange sample_env stuck_node ''0.0.7193058'' 1 (Some 5) = None"
    by (simp add: getMessagesInRange_def range_loop_stuck)
  ultimately show ?thesis by blast
qed

text \<open>The honest mirror node over the log of the entries 1, 2 and 3 meets the condition, so
  the call returns there.\<close>

theorem getMessagesInRange_terminates_witness:
  "\<exists>r. getMessagesInRange sample_env (mirror_node [entry 1, entry 2, entry 3])
         ''0.0.7193058'' 1 (Some 3) = Some r"
proof -
  have wf: "wf_log [entry 1, entry 2, entry 3]" by (simp add: wf_log_def entry_def)
  have honest: "\<forall>b r ms. queryTopicMessages sample_env (mirror_node [entry 1, entry 2, entry 3])
                 ''0.0.7193058'' (new_options b) = Inr r
               \<and> messages r = Some ms
               \<longrightarrow> (\<forall>m\<in>set ms. b < sequence_number m \<and> m \<in> set [entry 1, entry 2, entry 3])"
  proof (intro allI impI ballI)
    fix b r ms m
    assume a: "queryTopicMessages sample_env (mirror_node [entry 1, entry 2, entry 3])
                 ''0.0.7193058'' (new_options b) = Inr r \<and> messages r = Some ms"
      and m: "m \<in> set ms"
    from a have "ms = take 100 (filter (\<lambda>m. b < sequence_number m) [entry 1, entry 2, entry 3])"
      by (auto simp: query_new_wf [OF mirror_configured_sample wf])
    with m have "m \<in> set (filter (\<lambda>m. b < sequence_number m) [entry 1, entry 2, entry 3])"
      by (auto dest: in_set_takeD)
    then show "b < sequence_number m \<and> m \<in> set [entry 1, entry 2, entry 3]"
      by (simp only: set_filter) blast
  qed
  with getMessagesInRange_terminates
    [of sample_env "mirror_node [entry 1, entry 2, entry 3]" "''0.0.7193058''"
       "[entry 1, entry 2, entry 3]" 1 "Some 3"]
  show ?thesis by blast
qed

section \<open>The latest sequence number\<close>

text \<open>With the mirror node URL configured, the function makes one request, descending with
  limit 1, and what it returns is read from the reply to that request. Against the mirror node
  it returns the greatest sequence number of the log, or \<^verbatim>\<open>null\<close> when the log is empty or
  that number is 0. So, when every sequence number is at least 1, \<^verbatim>\<open>null\<close> is returned
  exactly for the empty log; a log whose greatest sequence number is 0 is reported as
  \<^verbatim>\<open>null\<close> too.\<close>

lemma latest_sequence_number_configured:
  assumes "mirror_configured env" and "sorted_wrt (<) (map sequence_number log)"
  shows "getLatestSequenceNumber env (mirror_node log) topic =
           Inr (if log = [] \<or> Max (sequence_number ` set log) = 0 then None
                else Some (Max (sequence_number ` set log)))
         \<and> (list_all (\<lambda>m. 1 \<le> sequence_number m) log \<longrightarrow>
              (getLatestSequenceNumber env (mirror_node log) topic = Inr None \<longleftrightarrow> log = []))
         \<and> (\<exists>u. queryTopicMessages_request env topic latest_options =
                   Inr \<lparr>url_base = u, url_topic = topic,
                        url_params = [(''limit'', ''1''), (''order'', ''desc'')]\<rparr>
                \<and> (\<forall>get. queryTopicMessages env get topic latest_options =
                      settle (get \<lparr>url_base = u, url_topic = topic,
                                   url_params = [(''limit'', ''1''), (''order'', ''desc'')]\<rparr>)))"
proof -
  from request_configured [OF assms(1), of topic latest_options]
  obtain u where req: "queryTopicMessages_request env topic latest_options =
      Inr \<lparr>url_base = u, url_topic = topic,
           url_params = [(''limit'', ''1''), (''order'', ''desc'')]\<rparr>"
    by (auto simp: params_latest_options)
  then have one: "\<exists>u. queryTopicMessages_request env topic latest_options =
                   Inr \<lparr>url_base = u, url_topic = topic,
                        url_params = [(''limit'', ''1''), (''order'', ''desc'')]\<rparr>
                \<and> (\<forall>get. queryTopicMessages env get topic latest_options =
                      settle (get \<lparr>url_base = u, url_topic = topic,
                                   url_params = [(''limit'', ''1''), (''order'', ''desc'')]\<rparr>))"
    by (simp add: queryTopicMessages_def)
  show ?thesis
  proof (cases "log = []")
    case True
    with assms one show ?thesis by (simp add: latest_of_log)
  next
    case False
    then have mx: "Max (sequence_number ` set log) = sequence_number (last log)"
      using assms(2) by (simp add: Max_sorted_last)
    have "list_all (\<lambda>m. 1 \<le> sequence_number m) log \<Longrightarrow> sequence_number (last log) \<noteq> 0"
    proof -
      assume "list_all (\<lambda>m. 1 \<le> sequence_number m) log"
      then have "1 \<le> sequence_number (last log)"
        using False by (simp add: list_all_iff)
      then show ?thesis by simp
    qed
    with False mx assms(1) one show ?thesis
      by (auto simp: latest_of_log)
  qed
qed

text \<open>Without the URL the call throws.\<close>

lemma getLatestSequenceNumber_unconfigured:
  "\<not> mirror_configured env \<Longrightarrow>
   getLatestSequenceNumber env get topic =
     Inl (''Failed to get latest sequence number: '' @ undefined_client)"
  by (simp add: getLatestSequenceNumber_def query_unconfigured)

text \<open>
  C9. \<^verbatim>\<open>getLatestSequenceNumber\<close> is to return \<^verbatim>\<open>null\<close> for a topic without messages and
  the greatest sequence number otherwise (an entry numbered 0 being reported as \<^verbatim>\<open>null\<close>
  too). The code does so when \<^verbatim>\<open>MIRROR_NODE_URL\<close> is set: 3 for the log of the entries 1,
  2 and 3, \<^verbatim>\<open>null\<close> for the empty log and for the log of one entry numbered 0. In an
  environment that holds the credentials and the network and leaves \<^verbatim>\<open>MIRROR_NODE_URL\<close>
  unset, it throws on each of these logs instead: \<^verbatim>\<open>queryTopicMessages\<close> calls
  \<^verbatim>\<open>getMirrorNodeUrl()\<close> without the client, and no request is sent.
\<close>

theorem getLatestSequenceNumber_missing_client:
  "getLatestSequenceNumber sample_credentials (mirror_node [entry 1, entry 2, entry 3])
       ''0.0.7193058'' =
     Inl (''Failed to get latest sequence number: '' @ undefined_client)
   \<and> getLatestSequenceNumber sample_credentials (mirror_node []) ''0.0.7193058'' =
     Inl (''Failed to get latest sequence number: '' @ undefined_client)
   \<and> getLatestSequenceNumber sample_env (mirror_node [entry 1, entry 2, entry 3])
       ''0.0.7193058'' = Inr (Some 3)
   \<and> getLatestSequenceNumber sample_env (mirror_node []) ''0.0.7193058'' = Inr None
   \<and> getLatestSequenceNumber sample_env (mirror_node [entry 0]) ''0.0.7193058'' = Inr None"
  using getLatestSequenceNumber_unconfigured [OF credentials_unconfigured]
    latest_sequence_number_configured
      [of sample_env "[entry 1, entry 2, entry 3]" "''0.0.7193058''"]
    latest_sequence_number_configured [of sample_env "[]" "''0.0.7193058''"]
    latest_sequence_number_configured [of sample_env "[entry 0]" "''0.0.7193058''"]
  by (simp add: mirror_configured_sample entry_def)

section \<open>The parameters of a query\<close>




section \<open>Submitting a message\<close>

text \<open>
  C6, as stated, fails: the object returned on success holds the success flag and the topic
  id that was passed in. Two submissions whose receipts carry the sequence numbers 7 and 8
  return the same object.
\<close>

theorem submit_sequence_counterexample:
  "submitMessageToHCS
       (const_execute \<lparr>receipt_status = ''SUCCESS'', topicSequenceNumber = 7\<rparr>)
       () ''0.0.7193058'' ''hello'' =
     Inr \<lparr>success = True, topicId = Some ''0.0.7193058'', error = None\<rparr>
   \<and> submitMessageToHCS
       (const_execute \<lparr>receipt_status = ''SUCCESS'', topicSequenceNumber = 8\<rparr>)
       () ''0.0.7193058'' ''hello'' =
     Inr \<lparr>success = True, topicId = Some ''0.0.7193058'', error = None\<rparr>"
  by (simp add: submitMessageToHCS_def const_execute_def isTransactionSuccessful_def)

text \<open>
  C6, amended. Submitting an entry to a log returns, when the receipt's status is
  \<^verbatim>\<open>SUCCESS\<close>, the object \<^verbatim>\<open>{ success: true, topicId }\<close> with the topic id it was
  given; the sequence number in the receipt is not part of the result.
\<close>

theorem submit_returns_topic:
  assumes "execute client topic msg = Inr r" and "receipt_status r = ''SUCCESS''"
  shows "submitMessageToHCS execute client topic msg =
           Inr \<lparr>success = True, topicId = Some topic, error = None\<rparr>"
  using assms by (simp add: submitMessageToHCS_def isTransactionSuccessful_def)

theorem submit_returns_topic_witness:
  "const_execute \<lparr>receipt_status = ''SUCCESS'', topicSequenceNumber = 7\<rparr>
       () ''0.0.7193058'' ''hello'' =
     Inr \<lparr>receipt_status = ''SUCCESS'', topicSequenceNumber = 7\<rparr>
   \<and> receipt_status \<lparr>receipt_status = ''SUCCESS'', topicSequenceNumber = 7\<rparr> = ''SUCCESS''
   \<and> submitMessageToHCS
       (const_execute \<lparr>receipt_status = ''SUCCESS'', topicSequenceNumber = 7\<rparr>)
       () ''0.0.7193058'' ''hello'' =
     Inr \<lparr>success = True, topicId = Some ''0.0.7193058'', error = None\<rparr>"
  using submit_returns_topic
    [of "const_execute \<lparr>receipt_status = ''SUCCESS'', topicSequenceNumber = 7\<rparr>"
      "()" "''0.0.7193058''" "''hello''"
      "\<lparr>receipt_status = ''SUCCESS'', topicSequenceNumber = 7\<rparr>"]
  by (simp add: const_execute_def)

section \<open>Initialising the client\<close>

text \<open>The result of the function is the result of the function with its calls written
  down.\<close>

lemma initializeClient_calls_result:
  "snd (initializeClient_calls sdk env) = initializeClient sdk env"
  by (simp add: initializeClient_calls_def initializeClient_def Let_def
        split: sum.splits)

text \<open>
  C7, as stated, fails in its second half: with both variables set to strings that the SDK
  rejects, no client is returned. With the account id \<^verbatim>\<open>0.0.1441\<close> and a private key text
  that \<^verbatim>\<open>PrivateKey.fromStringDer\<close> refuses, the call throws the SDK's error.
\<close>

theorem initializeClient_rejected_counterexample:
  "sample_credentials ''HEDERA_ACCOUNT_ID'' = Some ''0.0.1441''
   \<and> sample_credentials ''HEDERA_PRIVATE_KEY'' = Some ''3030020100''
   \<and> initializeClient rejecting_sdk sample_credentials = Inl ''invalid private key''"
  by (simp add: initializeClient_def sample_credentials_def rejecting_sdk_def truthy_str_def)

text \<open>
  C7, amended. When \<^verbatim>\<open>HEDERA_ACCOUNT_ID\<close> or \<^verbatim>\<open>HEDERA_PRIVATE_KEY\<close> is unset or empty,
  \<^verbatim>\<open>initializeClient\<close> throws the missing-credentials error without a single call into the
  SDK: no client is built, nothing is parsed, nothing is tried again. When both are set, it
  builds one client, parses the account id and then the key, each once; if the SDK accepts
  both, it sets the operator once and returns the client with the parsed account id and key
  as its operator; if the SDK rejects the account id or the key, the SDK's error is thrown
  after that call and nothing is tried again.
\<close>

theorem initializeClient_credentials:
  "(\<not> truthy_str (env ''HEDERA_ACCOUNT_ID'') \<or> \<not> truthy_str (env ''HEDERA_PRIVATE_KEY'')
      \<longrightarrow> initializeClient sdk env = Inl missing_credentials
          \<and> initializeClient_calls sdk env = ([], Inl missing_credentials))
   \<and> (env ''HEDERA_ACCOUNT_ID'' = Some operatorId \<and> operatorId \<noteq> []
      \<and> env ''HEDERA_PRIVATE_KEY'' = Some operatorKey \<and> operatorKey \<noteq> []
      \<and> AccountId_fromString sdk operatorId = Inr a
      \<and> PrivateKey_fromStringDer sdk operatorKey = Inr k
      \<longrightarrow> (\<exists>c built. initializeClient sdk env = Inr c \<and> client_operator c = Some (a, k)
             \<and> built \<in> {Call_forMainnet, Call_forTestnet}
             \<and> initializeClient_calls sdk env =
                 ([built, Call_AccountId_fromString operatorId,
                   Call_PrivateKey_fromStringDer operatorKey, Call_setOperator], Inr c)))
   \<and> (env ''HEDERA_ACCOUNT_ID'' = Some operatorId \<and> operatorId \<noteq> []
      \<and> env ''HEDERA_PRIVATE_KEY'' = Some operatorKey \<and> operatorKey \<noteq> []
      \<and> AccountId_fromString sdk operatorId = Inl e
      \<longrightarrow> (\<exists>built. initializeClient sdk env = Inl e
             \<and> built \<in> {Call_forMainnet, Call_forTestnet}
             \<and> initializeClient_calls sdk env =
                 ([built, Call_AccountId_fromString operatorId], Inl e)))
   \<and> (env ''HEDERA_ACCOUNT_ID'' = Some operatorId \<and> operatorId \<noteq> []
      \<and> env ''HEDERA_PRIVATE_KEY'' = Some operatorKey \<and> operatorKey \<noteq> []
      \<and> AccountId_fromString sdk operatorId = Inr a
      \<and> PrivateKey_fromStringDer sdk operatorKey = Inl e
      \<longrightarrow> (\<exists>built. initializeClient sdk env = Inl e
             \<and> built \<in> {Call_forMainnet, Call_forTestnet}
             \<and> initializeClient_calls sdk env =
                 ([built, Call_AccountId_fromString operatorId,
                   Call_PrivateKey_fromStringDer operatorKey], Inl e)))"
  by (auto simp: initializeClient_def initializeClient_calls_def truthy_str_def
        setOperator_def Let_def)

theorem initializeClient_credentials_witness:
  "\<not> truthy_str (sample_env ''HEDERA_ACCOUNT_ID'')
   \<and> initializeClient sample_sdk sample_env = Inl missing_credentials
   \<and> initializeClient_calls sample_sdk sample_env = ([], Inl missing_credentials)
   \<and> sample_credentials ''HEDERA_ACCOUNT_ID'' = Some ''0.0.1441''
   \<and> sample_credentials ''HEDERA_PRIVATE_KEY'' = Some ''3030020100''
   \<and> AccountId_fromString sample_sdk ''0.0.1441'' = Inr ''0.0.1441''
   \<and> PrivateKey_fromStringDer sample_sdk ''3030020100'' = Inr ''3030020100''
   \<and> (\<exists>c. initializeClient sample_sdk sample_credentials = Inr c
         \<and> client_operator c = Some (''0.0.1441'', ''3030020100''))
   \<and> PrivateKey_fromStringDer rejecting_sdk ''3030020100'' = Inl ''invalid private key''
   \<and> fst (initializeClient_calls rejecting_sdk sample_credentials) =
       [Call_forMainnet, Call_AccountId_fromString ''0.0.1441'',
        Call_PrivateKey_fromStringDer ''3030020100'']"
  using initializeClient_credentials [where env = sample_env and sdk = sample_sdk]
    initializeClient_credentials [where env = sample_credentials and sdk = sample_sdk
      and operatorId = "''0.0.1441''" and operatorKey = "''3030020100''"
      and a = "''0.0.1441''" and k = "''3030020100''"]
    initializeClient_credentials [where env = sample_credentials and sdk = rejecting_sdk
      and operatorId = "''0.0.1441''" and operatorKey = "''3030020100''"
      and a = "''0.0.1441''" and e = "''invalid private key''"]
  by (auto simp: sample_env_def sample_credentials_def sample_sdk_def rejecting_sdk_def
        truthy_str_def initializeClient_calls_def network_selector_def toLowerCase_def
        lower_char_def)

text \<open>
  C8. The client that \<^verbatim>\<open>initializeClient\<close> returns targets mainnet exactly when the network
  selector, lower-cased, is \<^verbatim>\<open>mainnet\<close>, and testnet for every other value: the selector
  is \<^verbatim>\<open>HEDERA_NETWORK\<close>, or \<^verbatim>\<open>testnet\<close> when the variable is unset or empty. Whether
  the call fails does not depend on the selector.
\<close>

theorem initializeClient_network:
  "(initializeClient sdk env = Inr c \<longrightarrow>
      client_network c =
        (if toLowerCase (network_selector env) = ''mainnet'' then Mainnet else Testnet)
      \<and> (env ''HEDERA_NETWORK'' = None \<longrightarrow> client_network c = Testnet))
   \<and> (env ''HEDERA_NETWORK'' = None \<longrightarrow> network_selector env = ''testnet'')
   \<and> isl (initializeClient sdk (env(''HEDERA_NETWORK'' := v))) = isl (initializeClient sdk env)"
  by (auto simp: initializeClient_def truthy_str_def setOperator_def Let_def
        forMainnet_def forTestnet_def network_selector_def toLowerCase_def lower_char_def
        split: sum.splits option.splits)

theorem initializeClient_network_witness:
  "initializeClient sample_sdk sample_credentials =
     Inr \<lparr>client_network = Mainnet, client_operator = Some (''0.0.1441'', ''3030020100'')\<rparr>
   \<and> network_selector sample_credentials = ''MainNet''
   \<and> initializeClient sample_sdk (sample_credentials(''HEDERA_NETWORK'' := None)) =
     Inr \<lparr>client_network = Testnet, client_operator = Some (''0.0.1441'', ''3030020100'')\<rparr>
   \<and> initializeClient sample_sdk (sample_credentials(''HEDERA_NETWORK'' \<mapsto> ''previewnet'')) =
     Inr \<lparr>client_network = Testnet, client_operator = Some (''0.0.1441'', ''3030020100'')\<rparr>"
  using initializeClient_network [where sdk = sample_sdk and env = sample_credentials
      and c = "\<lparr>client_network = Mainnet,
                 client_operator = Some (''0.0.1441'', ''3030020100'')\<rparr>"
      and v = None]
  by (simp add: initializeClient_def sample_credentials_def sample_sdk_def truthy_str_def
        network_selector_def toLowerCase_def lower_char_def forMainnet_def forTestnet_def
        setOperator_def)

end
